theory Spec2Isabelle
  imports Main
begin

section \<open>Strings and case conversion\<close>

text \<open>
  A Python \<^verbatim>\<open>str\<close> is a list of Unicode code points; \<open>ascii\<close> gives the code points
  of a literal.
\<close>

type_synonym str = "nat list"

definition ascii :: "string \<Rightarrow> str" where
  "ascii s = map of_char s"

text \<open>
  \<^verbatim>\<open>str.upper\<close> and \<^verbatim>\<open>str.lower\<close> belong to the Python runtime, not to the source.
  The functions of the dialect take them as the parameters \<open>up\<close> and \<open>lo\<close>, and the
  theorems about these functions hold for whatever the two maps are; a law of the maps
  that a theorem needs is one of its hypotheses.

  \<open>upper\<close> and \<open>lower\<close> are Python 3's \<^verbatim>\<open>str.upper\<close> and \<^verbatim>\<open>str.lower\<close> on text over
  the code points up to U+00FF together with U+0178, U+039C, U+03BC and U+212A, a set
  that both maps keep within itself: on it U+00DF upper-cases to \<open>SS\<close>, U+00B5 and
  U+03BC to U+039C, U+00FF to U+0178, and U+212A (the Kelvin sign) lower-cases to \<open>k\<close>.
  They stand for the runtime's maps at the concrete names evaluated below, all of which
  lie in this set; a code point outside it is not in the table and is left as it is.
\<close>

definition upper_cp :: "nat \<Rightarrow> nat list" where
  "upper_cp c =
     (if 97 \<le> c \<and> c \<le> 122 then [c - 32]
      else if c = 181 then [924]
      else if c = 223 then [83, 83]
      else if 224 \<le> c \<and> c \<le> 254 \<and> c \<noteq> 247 then [c - 32]
      else if c = 255 then [376]
      else if c = 956 then [924]
      else [c])"

definition lower_cp :: "nat \<Rightarrow> nat" where
  "lower_cp c =
     (if 65 \<le> c \<and> c \<le> 90 then c + 32
      else if 192 \<le> c \<and> c \<le> 222 \<and> c \<noteq> 215 then c + 32
      else if c = 376 then 255
      else if c = 924 then 956
      else if c = 8490 then 107
      else c)"

definition upper :: "str \<Rightarrow> str" where
  "upper s = concat (map upper_cp s)"

definition lower :: "str \<Rightarrow> str" where
  "lower s = map lower_cp s"

section \<open>Names with a quote flag\<close>

text \<open>
  A name handled by the dialect is a Python \<^verbatim>\<open>str\<close> or a \<^verbatim>\<open>quoted_name\<close>, the
  \<^verbatim>\<open>str\<close> subclass that \<^verbatim>\<open>normalize_name\<close> builds with \<^verbatim>\<open>quote=True\<close>.
  \<open>Name t False\<close> is the plain string \<open>t\<close>, \<open>Name t True\<close> is
  \<^verbatim>\<open>quoted_name(t, quote=True)\<close>.
\<close>

datatype name = Name (text_of: str) (quote: bool)

definition quoted_name :: "name \<Rightarrow> bool \<Rightarrow> name" where
  "quoted_name n q = Name (text_of n) q"

text \<open>
  Modelled from the spec: the class \<^verbatim>\<open>quoted_name\<close> is imported from the SQL toolkit and its
  body is not part of the source. The spec keeps the exact case of a name that carries the
  explicit quoted marker and stores quoted identifiers verbatim, so case conversion of a
  flagged name returns the name itself; an unflagged name is converted as a string, by
  the case map given.
\<close>

definition name_upper :: "(str \<Rightarrow> str) \<Rightarrow> name \<Rightarrow> name" where
  "name_upper up n = (if quote n then n else Name (up (text_of n)) False)"

definition name_lower :: "(str \<Rightarrow> str) \<Rightarrow> name \<Rightarrow> name" where
  "name_lower lo n = (if quote n then n else Name (lo (text_of n)) False)"

text \<open>
  Python's \<^verbatim>\<open>==\<close> between two names compares them as strings: the flag takes no part.
\<close>

definition str_eq :: "name \<Rightarrow> name \<Rightarrow> bool" where
  "str_eq a b = (text_of a = text_of b)"

section \<open>normalize\_name and denormalize\_name\<close>

datatype error = IndexError | ArgumentError string | KeyError string | AttributeError | TypeError

text \<open>
  \<^verbatim>\<open>self.identifier_preparer._requires_quotes\<close> is inherited from the toolkit's
  \<^verbatim>\<open>IdentifierPreparer\<close>; it is the parameter \<open>rq\<close> of both functions, and it either
  raises (\<open>Inl\<close>) or returns its answer (\<open>Inr\<close>). An error raised by the call leaves the
  function. Python's \<^verbatim>\<open>and\<close> makes the call only when the comparison before it holds.
  \<open>None\<close> is Python's \<^verbatim>\<open>None\<close>, the only input that either function guards.
\<close>

definition normalize_name ::
  "(str \<Rightarrow> str) \<Rightarrow> (str \<Rightarrow> str) \<Rightarrow> (name \<Rightarrow> error + bool) \<Rightarrow> name option \<Rightarrow> error + name option"
where
  "normalize_name up lo rq name =
     (case name of
        None \<Rightarrow> Inr None
      | Some n \<Rightarrow>
          (let otherwise =
                 (if str_eq (name_lower lo n) n then Inr (Some (quoted_name n True))
                  else Inr (Some n))
           in if str_eq (name_upper up n) n then
                (case rq (name_lower lo n) of
                   Inl e \<Rightarrow> Inl e
                 | Inr b \<Rightarrow> if \<not> b then Inr (Some (name_lower lo n)) else otherwise)
              else otherwise))"

definition denormalize_name ::
  "(str \<Rightarrow> str) \<Rightarrow> (str \<Rightarrow> str) \<Rightarrow> (name \<Rightarrow> error + bool) \<Rightarrow> name option \<Rightarrow> error + name option"
where
  "denormalize_name up lo rq name =
     (case name of
        None \<Rightarrow> Inr None
      | Some n \<Rightarrow>
          if str_eq (name_lower lo n) n then
            (case rq (name_lower lo n) of
               Inl e \<Rightarrow> Inl e
             | Inr b \<Rightarrow> if \<not> b then Inr (Some (name_upper up n)) else Inr (Some n))
          else Inr (Some n))"

section \<open>Reserved words and the quote character\<close>

text \<open>
  \<^verbatim>\<open>RESERVED_WORDS\<close> and the preparer's \<^verbatim>\<open>reserved_words\<close>, the lower-cased list.
\<close>

definition RESERVED_WORDS :: "string list" where
  "RESERVED_WORDS =
  [
    ''ALL'', ''ALTER'', ''AND'', ''ANY'', ''AS'', ''BETWEEN'', ''BY'', ''CHECK'',
    ''COLUMN'', ''CONNECT'', ''CREATE'', ''CURRENT'', ''DELETE'', ''DISTINCT'', ''DROP'',
    ''ELSE'', ''EXISTS'', ''FOR'', ''FROM'', ''GRANT'', ''GROUP'', ''HAVING'', ''IN'',
    ''INSERT'', ''INTERSECT'', ''INTO'', ''IS'', ''LIKE'', ''NOT'', ''NULL'', ''OF'',
    ''ON'', ''OR'', ''ORDER'', ''REVOKE'', ''ROW'', ''ROWS'', ''SELECT'', ''SET'',
    ''START'', ''TABLE'', ''THEN'', ''TO'', ''TRIGGER'', ''UNION'', ''UNIQUE'',
    ''UPDATE'', ''VALUES'', ''WHENEVER'', ''WHERE'', ''WITH'', ''REGEXP'', ''RLIKE'',
    ''SOME'', ''MINUS'', ''INCREMENT''
  ]"

definition reserved_words :: "str list" where
  "reserved_words = map (\<lambda>x. lower (ascii x)) RESERVED_WORDS"

text \<open>
  The preparer is built with \<^verbatim>\<open>initial_quote='"'\<close> and \<^verbatim>\<open>escape_quote='"'\<close>.
\<close>

definition initial_quote :: nat where
  "initial_quote = of_char (CHR 0x22)"

definition escape_quote :: nat where
  "escape_quote = of_char (CHR 0x22)"

section \<open>The quoting decision\<close>

definition is_upper_letter :: "nat \<Rightarrow> bool" where
  "is_upper_letter c = (65 \<le> c \<and> c \<le> 90)"

definition is_lower_letter :: "nat \<Rightarrow> bool" where
  "is_lower_letter c = (97 \<le> c \<and> c \<le> 122)"

definition is_digit :: "nat \<Rightarrow> bool" where
  "is_digit c = (48 \<le> c \<and> c \<le> 57)"

definition legal_character :: "nat \<Rightarrow> bool" where
  "legal_character c =
     (is_upper_letter c \<or> is_lower_letter c \<or> is_digit c \<or>
      c = of_char (CHR ''_'') \<or> c = of_char (CHR ''$''))"

definition legal_initial :: "str \<Rightarrow> bool" where
  "legal_initial s =
     (case s of
        [] \<Rightarrow> False
      | c # _ \<Rightarrow> is_upper_letter c \<or> is_lower_letter c \<or> c = of_char (CHR ''_''))"

text \<open>
  Modelled from the spec: \<^verbatim>\<open>_requires_quotes\<close> is inherited from the toolkit's
  \<^verbatim>\<open>IdentifierPreparer\<close> and its body is not part of the source. The spec's
  \<^verbatim>\<open>requires_quoting\<close> decides in this order: the lower-cased identifier is a reserved
  word; the identifier has a character outside \<^verbatim>\<open>[A-Za-z0-9_$]\<close> or does not start with a
  letter or underscore; the identifier has both upper and lower letters; otherwise no
  quoting is required. The lower-cased form is taken with \<open>lower\<close>: a name with a code
  point outside the set that \<open>lower\<close> covers has a character outside
  \<^verbatim>\<open>[A-Za-z0-9_$]\<close> and requires quoting whatever its lower-cased form is.
\<close>

definition requires_quoting :: "str \<Rightarrow> bool" where
  "requires_quoting s =
     (if List.member reserved_words (lower s) then True
      else if list_ex (\<lambda>c. \<not> legal_character c) s \<or> \<not> legal_initial s then True
      else if list_ex is_upper_letter s \<and> list_ex is_lower_letter s then True
      else False)"

text \<open>
  Modelled from the spec: the preparer's \<^verbatim>\<open>_requires_quotes\<close> as the dialect calls it,
  on a name. The spec's operation takes an object name and looks at its first character;
  the toolkit's method reads it as \<^verbatim>\<open>value[0]\<close>, which on the empty string raises
  \<^verbatim>\<open>IndexError\<close>. On every other name the answer is that of \<^verbatim>\<open>requires_quoting\<close>.
\<close>

definition requires_quotes :: "name \<Rightarrow> error + bool" where
  "requires_quotes n =
     (if text_of n = [] then Inl IndexError else Inr (requires_quoting (text_of n)))"

text \<open>
  Modelled from the spec: \<^verbatim>\<open>quote\<close> is inherited from the toolkit's
  \<^verbatim>\<open>IdentifierPreparer\<close> and its body is not part of the source. The spec's
  \<^verbatim>\<open>quote_if_needed\<close> wraps the identifier in the quote character, doubling any embedded
  quote character, if \<^verbatim>\<open>requires_quoting\<close> holds or the identifier carries the explicit
  quoted flag; otherwise it returns the identifier unchanged.
\<close>

definition escape_identifier :: "str \<Rightarrow> str" where
  "escape_identifier s =
     concat (map (\<lambda>c. if c = escape_quote then [escape_quote, escape_quote] else [c]) s)"

definition quote_identifier :: "str \<Rightarrow> str" where
  "quote_identifier s = initial_quote # escape_identifier s @ [initial_quote]"

definition quote_if_needed :: "name \<Rightarrow> str" where
  "quote_if_needed n =
     (if requires_quoting (text_of n) \<or> quote n then quote_identifier (text_of n)
      else text_of n)"

section \<open>Joining quoted identifiers\<close>

text \<open>Python's \<^verbatim>\<open>sep.join(parts)\<close>.\<close>

fun join :: "'a list \<Rightarrow> 'a list list \<Rightarrow> 'a list" where
  "join sep [] = []"
| "join sep [x] = x"
| "join sep (x # y # ys) = x @ sep @ join sep (y # ys)"

text \<open>
  \<^verbatim>\<open>_quote_free_identifiers\<close> and \<^verbatim>\<open>_denormalize_quote_join\<close>; the preparer's
  \<^verbatim>\<open>quote\<close> method is the parameter \<open>q\<close>.
\<close>

definition quote_free_identifiers :: "(name \<Rightarrow> str) \<Rightarrow> name option list \<Rightarrow> str list" where
  "quote_free_identifiers q ids = map (\<lambda>i. q (the i)) (filter (\<lambda>i. i \<noteq> None) ids)"

definition denormalize_quote_join :: "(name \<Rightarrow> str) \<Rightarrow> name option list \<Rightarrow> str" where
  "denormalize_quote_join q idents = join (ascii ''.'') (quote_free_identifiers q idents)"

section \<open>create\_connect\_args\<close>

text \<open>Python's \<^verbatim>\<open>s.split(sep)\<close> for a one-character separator.\<close>

fun split :: "char \<Rightarrow> string \<Rightarrow> string list" where
  "split sep [] = [[]]"
| "split sep (c # cs) =
     (if c = sep then [] # split sep cs
      else (case split sep cs of [] \<Rightarrow> [[c]] | p # ps \<Rightarrow> (c # p) # ps))"

datatype optval = StrV string | IntV int | BoolV bool

type_synonym opts = "string \<rightharpoonup> optval"

text \<open>
  \<open>opts\<close> is the dictionary returned by \<^verbatim>\<open>url.translate_connect_args(username='user')\<close>
  and \<open>query\<close> is \<^verbatim>\<open>url.query\<close>. A \<^verbatim>\<open>database\<close> or \<^verbatim>\<open>host\<close> entry that is not a
  string has no \<^verbatim>\<open>split\<close> and no \<^verbatim>\<open>in\<close>; a missing \<^verbatim>\<open>host\<close> entry is a
  \<^verbatim>\<open>KeyError\<close>.
\<close>

definition create_connect_args :: "opts \<Rightarrow> opts \<Rightarrow> error + (optval list \<times> opts)" where
  "create_connect_args opts query =
     (case
        (case opts ''database'' of
           None \<Rightarrow> Inr opts
         | Some (StrV d) \<Rightarrow>
             (let name_spaces = split CHR ''/'' d in
              if length name_spaces = 1 then Inr opts
              else if length name_spaces = 2 then
                Inr (opts(''database'' \<mapsto> StrV (name_spaces ! 0),
                          ''schema'' \<mapsto> StrV (name_spaces ! 1)))
              else Inl (ArgumentError (''Invalid name space is specified: '' @ d)))
         | Some _ \<Rightarrow> Inl AttributeError)
      of
        Inl e \<Rightarrow> Inl e
      | Inr opts1 \<Rightarrow>
          (case opts1 ''host'' of
             None \<Rightarrow> Inl (KeyError ''host'')
           | Some (StrV h) \<Rightarrow>
               (let opts2 =
                      (if CHR ''.'' \<notin> set h then
                         opts1(''account'' \<mapsto> StrV h,
                               ''host'' \<mapsto> StrV (h @ ''.snowflakecomputing.com''),
                               ''port'' \<mapsto> StrV ''443'')
                       else opts1);
                    opts3 = opts2(''autocommit'' \<mapsto> BoolV False)
                in Inr ([], opts3 ++ query))
           | Some _ \<Rightarrow> Inl TypeError))"

section \<open>Laws of the case maps at hand\<close>

lemma upper_Cons: "upper (c # s) = upper_cp c @ upper s"
  by (simp add: upper_def)

lemma upper_append: "upper (a @ b) = upper a @ upper b"
  by (simp add: upper_def)

lemma upper_upper_cp: "upper (upper_cp c) = upper_cp c"
  by (auto simp: upper_def upper_cp_def)

lemma upper_idem: "upper (upper s) = upper s"
  by (induction s) (simp_all add: upper_Cons upper_append upper_upper_cp, simp add: upper_def)

lemma upper_nonempty: "upper s = [] \<Longrightarrow> s = []"
  by (cases s) (auto simp: upper_Cons upper_cp_def split: if_splits)

lemma requires_quotes_raises: "requires_quotes n = Inl e \<Longrightarrow> text_of n = []"
  by (simp add: requires_quotes_def split: if_splits)

section \<open>Evaluation on concrete names\<close>

lemmas case_eval = ascii_def upper_def lower_def upper_cp_def lower_cp_def

lemma reserved_words_eq:
  "reserved_words = map ascii
   [
     ''all'', ''alter'', ''and'', ''any'', ''as'', ''between'', ''by'', ''check'',
     ''column'', ''connect'', ''create'', ''current'', ''delete'', ''distinct'', ''drop'',
     ''else'', ''exists'', ''for'', ''from'', ''grant'', ''group'', ''having'', ''in'',
     ''insert'', ''intersect'', ''into'', ''is'', ''like'', ''not'', ''null'', ''of'',
     ''on'', ''or'', ''order'', ''revoke'', ''row'', ''rows'', ''select'', ''set'',
     ''start'', ''table'', ''then'', ''to'', ''trigger'', ''union'', ''unique'',
     ''update'', ''values'', ''whenever'', ''where'', ''with'', ''regexp'', ''rlike'',
     ''some'', ''minus'', ''increment''
   ]"
  by (simp add: reserved_words_def RESERVED_WORDS_def case_eval)

lemmas char_class_eval =
  is_upper_letter_def is_lower_letter_def is_digit_def legal_character_def legal_initial_def

lemmas name_eval = name_upper_def name_lower_def str_eq_def quoted_name_def

lemmas quoting_eval =
  requires_quotes_def requires_quoting_def reserved_words_eq char_class_eval case_eval

lemma requires_quoting_illegal_character:
  "list_ex (\<lambda>c. \<not> legal_character c) s \<Longrightarrow> requires_quoting s"
  by (simp add: requires_quoting_def)

section \<open>normalize\_name\<close>

text \<open>
  C6. A storage name that is entirely uppercase and whose lower-cased form does not require
  quoting is returned by \<open>normalize_name\<close> lower-cased, with no quoted flag.
\<close>

theorem normalize_name_folds_uppercase:
  "up t = t \<Longrightarrow> rq (Name (lo t) False) = Inr False \<Longrightarrow>
   normalize_name up lo rq (Some (Name t False)) = Inr (Some (Name (lo t) False))"
  by (simp add: normalize_name_def name_eval)

theorem normalize_name_folds_uppercase_witness:
  "upper (ascii ''ORDERS'') = ascii ''ORDERS'' \<and>
   requires_quotes (Name (lower (ascii ''ORDERS'')) False) = Inr False \<and>
   normalize_name upper lower requires_quotes (Some (Name (ascii ''ORDERS'') False)) =
     Inr (Some (Name (ascii ''orders'') False))"
proof -
  have u: "upper (ascii ''ORDERS'') = ascii ''ORDERS''"
    by (simp add: case_eval)
  have l: "lower (ascii ''ORDERS'') = ascii ''orders''"
    by (simp add: case_eval)
  have r: "requires_quotes (Name (lower (ascii ''ORDERS'')) False) = Inr False"
    by (simp add: quoting_eval)
  show ?thesis
    using normalize_name_folds_uppercase
      [where t = "ascii ''ORDERS''" and up = upper and lo = lower and rq = requires_quotes]
      u r l
    by simp
qed

text \<open>
  C3, as the source has it. For a storage name that is not (entirely uppercase and
  quote-free when lower-cased), \<open>normalize_name\<close> keeps the text; an entirely lowercase
  name comes back flagged as explicitly quoted, any other name comes back as the plain
  string it was, with no flag.
\<close>

theorem normalize_name_keeps_other_names:
  "(up t = t \<longrightarrow> rq (Name (lo t) False) = Inr True) \<Longrightarrow>
   normalize_name up lo rq (Some (Name t False)) =
     (if lo t = t then Inr (Some (Name t True)) else Inr (Some (Name t False)))"
  by (cases "up t = t") (auto simp: normalize_name_def name_eval Let_def)

theorem normalize_name_keeps_other_names_witness:
  "upper (ascii ''orders'') \<noteq> ascii ''orders'' \<and>
   lower (ascii ''orders'') = ascii ''orders'' \<and>
   normalize_name upper lower requires_quotes (Some (Name (ascii ''orders'') False)) =
     Inr (Some (Name (ascii ''orders'') True)) \<and>
   upper [201] = [201] \<and> requires_quotes (Name (lower [201]) False) = Inr True \<and>
   lower [201] \<noteq> [201] \<and>
   normalize_name upper lower requires_quotes (Some (Name [201] False)) =
     Inr (Some (Name [201] False))"
proof -
  have u: "upper (ascii ''orders'') \<noteq> ascii ''orders''"
    by (simp add: case_eval)
  have l: "lower (ascii ''orders'') = ascii ''orders''"
    by (simp add: case_eval)
  have u': "upper [201] = [201]"
    by (simp add: case_eval)
  have r': "requires_quotes (Name (lower [201]) False) = Inr True"
    by (simp add: quoting_eval)
  have l': "lower [201] \<noteq> [201]"
    by (simp add: case_eval)
  show ?thesis
    using normalize_name_keeps_other_names
      [where t = "ascii ''orders''" and up = upper and lo = lower and rq = requires_quotes]
      normalize_name_keeps_other_names
      [where t = "[201]" and up = upper and lo = lower and rq = requires_quotes]
      u l u' r' l'
    by simp
qed

text \<open>
  C3, as the claim has it, fails: the mixed-case storage name \<open>Orders\<close> takes the last branch
  and is returned as a plain string, carrying no flag.
\<close>

theorem normalize_name_mixed_case_counterexample:
  "upper (ascii ''Orders'') \<noteq> ascii ''Orders'' \<and>
   lower (ascii ''Orders'') \<noteq> ascii ''Orders'' \<and>
   normalize_name upper lower requires_quotes (Some (Name (ascii ''Orders'') False)) =
     Inr (Some (Name (ascii ''Orders'') False)) \<and>
   \<not> quote (Name (ascii ''Orders'') False)"
  by (simp add: normalize_name_def name_eval case_eval)

section \<open>denormalize\_name\<close>

text \<open>
  C4. \<open>denormalize_name\<close> returns the upper-cased form of a plain name that is entirely
  lowercase and does not require quoting as a bare name, and every other name unchanged:
  a name that is not entirely lowercase and a name flagged as explicitly quoted come back
  verbatim. The only way out without a result is an error raised by the quoting decision
  itself.
\<close>

theorem denormalize_name_cases:
  "denormalize_name up lo rq (Some (Name t False)) =
     (if lo t = t then
        (case rq (Name t False) of
           Inl e \<Rightarrow> Inl e
         | Inr b \<Rightarrow> Inr (Some (if b then Name t False else Name (up t) False)))
      else Inr (Some (Name t False))) \<and>
   (lo t \<noteq> t \<longrightarrow> denormalize_name up lo rq (Some (Name t False)) = Inr (Some (Name t False))) \<and>
   denormalize_name up lo rq (Some (Name t True)) =
     (case rq (Name t True) of Inl e \<Rightarrow> Inl e | Inr b \<Rightarrow> Inr (Some (Name t True)))"
  by (cases "lo t = t") (auto simp: denormalize_name_def name_eval split: sum.splits)

theorem denormalize_name_cases_witness:
  "denormalize_name upper lower requires_quotes (Some (Name (ascii ''orders'') False)) =
     Inr (Some (Name (ascii ''ORDERS'') False)) \<and>
   lower (ascii ''Orders'') \<noteq> ascii ''Orders'' \<and>
   denormalize_name upper lower requires_quotes (Some (Name (ascii ''Orders'') False)) =
     Inr (Some (Name (ascii ''Orders'') False)) \<and>
   denormalize_name upper lower requires_quotes (Some (Name (ascii ''orders'') True)) =
     Inr (Some (Name (ascii ''orders'') True))"
proof -
  have l1: "lower (ascii ''orders'') = ascii ''orders''"
    and u1: "upper (ascii ''orders'') = ascii ''ORDERS''"
    by (simp_all add: case_eval)
  have r1: "requires_quotes (Name (ascii ''orders'') False) = Inr False"
    and r2: "requires_quotes (Name (ascii ''orders'') True) = Inr False"
    by (simp_all add: quoting_eval)
  have l2: "lower (ascii ''Orders'') \<noteq> ascii ''Orders''"
    by (simp add: case_eval)
  show ?thesis
    using denormalize_name_cases
      [where t = "ascii ''orders''" and up = upper and lo = lower and rq = requires_quotes]
      denormalize_name_cases
      [where t = "ascii ''Orders''" and up = upper and lo = lower and rq = requires_quotes]
      l1 u1 r1 r2 l2
    by simp
qed

text \<open>
  C9. \<open>denormalize_name\<close> is idempotent: applied to its own result it returns that result,
  and where the first application raises there is nothing to apply it to. The laws used
  are that upper-casing twice is upper-casing once, that only the empty string
  upper-cases to the empty string, and that the quoting decision raises on no name but
  the empty one.
\<close>

theorem denormalize_name_idempotent:
  "\<forall>s. up (up s) = up s \<Longrightarrow> \<forall>s. up s = [] \<longrightarrow> s = [] \<Longrightarrow>
   \<forall>n e. rq n = Inl e \<longrightarrow> text_of n = [] \<Longrightarrow>
   (case denormalize_name up lo rq name of
      Inl e \<Rightarrow> Inl e
    | Inr r \<Rightarrow> denormalize_name up lo rq r) = denormalize_name up lo rq name"
proof -
  assume idem: "\<forall>s. up (up s) = up s" and nonempty: "\<forall>s. up s = [] \<longrightarrow> s = []"
    and raises: "\<forall>n e. rq n = Inl e \<longrightarrow> text_of n = []"
  show ?thesis
  proof (cases name)
    case None
    then show ?thesis by (simp add: denormalize_name_def)
  next
    case (Some n)
    obtain t q where n: "n = Name t q" by (cases n)
    show ?thesis
    proof (cases q)
      case True
      with Some n show ?thesis
        by (simp add: denormalize_name_def name_eval split: sum.splits)
    next
      case False
      show ?thesis
      proof (cases "lo t = t")
        case lower_case: True
        show ?thesis
        proof (cases "rq (Name t False)")
          case (Inl e)
          with Some n False lower_case show ?thesis
            by (simp add: denormalize_name_def name_eval)
        next
          case (Inr b)
          show ?thesis
          proof (cases b)
            case True
            with Some n False lower_case Inr show ?thesis
              by (simp add: denormalize_name_def name_eval)
          next
            case unquoted: False
            have first: "denormalize_name up lo rq name = Inr (Some (Name (up t) False))"
              using Some n False lower_case Inr unquoted
              by (simp add: denormalize_name_def name_eval)
            have no_raise: "rq (Name (up t) False) \<noteq> Inl e" for e
            proof
              assume r: "rq (Name (up t) False) = Inl e"
              with raises have "up t = []" by fastforce
              with nonempty have "t = []" by blast
              with \<open>up t = []\<close> r Inr show False by simp
            qed
            have second: "denormalize_name up lo rq (Some (Name (up t) False)) =
                Inr (Some (Name (up t) False))"
              using idem no_raise
              by (cases "rq (Name (up t) False)")
                (auto simp: denormalize_name_def name_eval)
            from first second show ?thesis by simp
          qed
        qed
      next
        case False
        with Some n \<open>\<not> q\<close> show ?thesis
          by (simp add: denormalize_name_def name_eval)
      qed
    qed
  qed
qed

theorem denormalize_name_idempotent_witness:
  "denormalize_name upper lower requires_quotes (Some (Name (ascii ''orders'') False)) =
     Inr (Some (Name (ascii ''ORDERS'') False)) \<and>
   denormalize_name upper lower requires_quotes (Some (Name (ascii ''ORDERS'') False)) =
     Inr (Some (Name (ascii ''ORDERS'') False))"
proof -
  have idem: "\<forall>s. upper (upper s) = upper s"
    by (simp add: upper_idem)
  have nonempty: "\<forall>s. upper s = [] \<longrightarrow> s = []"
    by (auto dest: upper_nonempty)
  have raises: "\<forall>n e. requires_quotes n = Inl e \<longrightarrow> text_of n = []"
    by (auto dest: requires_quotes_raises)
  have l: "lower (ascii ''orders'') = ascii ''orders''"
    and u: "upper (ascii ''orders'') = ascii ''ORDERS''"
    by (simp_all add: case_eval)
  have r: "requires_quotes (Name (ascii ''orders'') False) = Inr False"
    by (simp add: quoting_eval)
  have first: "denormalize_name upper lower requires_quotes
      (Some (Name (ascii ''orders'') False)) = Inr (Some (Name (ascii ''ORDERS'') False))"
    using l u r by (simp add: denormalize_name_def name_eval)
  show ?thesis
    using denormalize_name_idempotent
      [where up = upper and lo = lower and rq = requires_quotes
        and name = "Some (Name (ascii ''orders'') False)", OF idem nonempty raises]
      first
    by simp
qed

text \<open>
  C8, as the source has it. Both functions guard \<open>None\<close> and nothing else: \<open>None\<close> comes
  back as \<open>None\<close>, and the empty name is handed to the quoting decision. An error raised
  there leaves the function; when the decision returns, \<open>denormalize_name\<close> returns the
  empty name and \<open>normalize_name\<close> returns it flagged as quoted exactly when the answer
  is yes.
\<close>

theorem normalize_denormalize_none_and_empty:
  "normalize_name up lo rq None = Inr None \<and>
   denormalize_name up lo rq None = Inr None \<and>
   (up [] = [] \<and> lo [] = [] \<longrightarrow>
    normalize_name up lo rq (Some (Name [] False)) =
      (case rq (Name [] False) of Inl e \<Rightarrow> Inl e | Inr b \<Rightarrow> Inr (Some (Name [] b))) \<and>
    denormalize_name up lo rq (Some (Name [] False)) =
      (case rq (Name [] False) of Inl e \<Rightarrow> Inl e | Inr b \<Rightarrow> Inr (Some (Name [] False))))"
  by (auto simp: normalize_name_def denormalize_name_def name_eval Let_def split: sum.splits)

theorem normalize_denormalize_none_and_empty_witness:
  "upper [] = [] \<and> lower [] = [] \<and>
   normalize_name upper lower requires_quotes None = Inr None \<and>
   denormalize_name upper lower requires_quotes None = Inr None \<and>
   normalize_name upper lower requires_quotes (Some (Name [] False)) = Inl IndexError \<and>
   denormalize_name upper lower requires_quotes (Some (Name [] False)) = Inl IndexError \<and>
   normalize_name upper lower (\<lambda>n. Inr (requires_quoting (text_of n))) (Some (Name [] False)) =
     Inr (Some (Name [] True)) \<and>
   denormalize_name upper lower (\<lambda>n. Inr (requires_quoting (text_of n))) (Some (Name [] False)) =
     Inr (Some (Name [] False))"
proof -
  have u: "upper [] = []" and l: "lower [] = []"
    by (simp_all add: case_eval)
  have r: "requires_quotes (Name [] False) = Inl IndexError"
    by (simp add: requires_quotes_def)
  have r': "requires_quoting [] = True"
    by (simp add: requires_quoting_def legal_initial_def)
  show ?thesis
    using normalize_denormalize_none_and_empty
      [where up = upper and lo = lower and rq = requires_quotes]
      normalize_denormalize_none_and_empty
      [where up = upper and lo = lower and rq = "\<lambda>n. Inr (requires_quoting (text_of n))"]
      u l r r'
    by simp
qed

text \<open>
  C8, as the claim has it, fails on the empty string: the quoting decision is reached and
  raises \<open>IndexError\<close>, in both functions.
\<close>

theorem normalize_denormalize_empty_counterexample:
  "normalize_name upper lower requires_quotes (Some (Name [] False)) = Inl IndexError \<and>
   denormalize_name upper lower requires_quotes (Some (Name [] False)) = Inl IndexError"
  by (simp add: normalize_name_def denormalize_name_def name_eval requires_quotes_def case_eval)

section \<open>The round trip\<close>




section \<open>The quoting decision on uppercase names\<close>

text \<open>
  C2, as the decision procedure has it. A name made of uppercase letters, digits and
  underscores only, that starts with a letter or an underscore and whose lower-cased form
  is not a reserved word, does not require quoting.
\<close>

theorem requires_quoting_uppercase_name:
  "list_all (\<lambda>c. is_upper_letter c \<or> is_digit c \<or> c = of_char (CHR ''_'')) s \<Longrightarrow>
   legal_initial s \<Longrightarrow> \<not> List.member reserved_words (lower s) \<Longrightarrow>
   \<not> requires_quoting s"
proof -
  assume cs: "list_all (\<lambda>c. is_upper_letter c \<or> is_digit c \<or> c = of_char (CHR ''_'')) s"
    and li: "legal_initial s" and nr: "\<not> List.member reserved_words (lower s)"
  have legal: "\<not> list_ex (\<lambda>c. \<not> legal_character c) s"
    using cs by (auto simp: list_all_iff list_ex_iff legal_character_def)
  have "\<And>c. is_lower_letter c \<Longrightarrow>
      \<not> (is_upper_letter c \<or> is_digit c \<or> c = of_char (CHR ''_''))"
    by (auto simp: char_class_eval)
  then have nolower: "\<not> list_ex is_lower_letter s"
    using cs by (auto simp: list_all_iff list_ex_iff)
  show ?thesis
    using legal nolower li nr by (simp add: requires_quoting_def)
qed

theorem requires_quoting_uppercase_name_witness:
  "list_all (\<lambda>c. is_upper_letter c \<or> is_digit c \<or> c = of_char (CHR ''_''))
     (ascii ''ORDERS_2016'') \<and>
   legal_initial (ascii ''ORDERS_2016'') \<and>
   \<not> List.member reserved_words (lower (ascii ''ORDERS_2016'')) \<and>
   \<not> requires_quoting (ascii ''ORDERS_2016'')"
proof -
  have cs: "list_all (\<lambda>c. is_upper_letter c \<or> is_digit c \<or> c = of_char (CHR ''_''))
      (ascii ''ORDERS_2016'')"
    by (simp add: char_class_eval ascii_def)
  have li: "legal_initial (ascii ''ORDERS_2016'')"
    by (simp add: char_class_eval ascii_def)
  have nr: "\<not> List.member reserved_words (lower (ascii ''ORDERS_2016''))"
    by (simp add: reserved_words_eq case_eval)
  show ?thesis
    using requires_quoting_uppercase_name [OF cs li nr] cs li nr by simp
qed

text \<open>
  C2, as the claim has it, fails on a name that begins with a digit: \<open>1A\<close> is made of a
  digit and an uppercase letter, is not a reserved word, and requires quoting.
\<close>

theorem requires_quoting_leading_digit_counterexample:
  "list_all (\<lambda>c. is_upper_letter c \<or> is_digit c \<or> c = of_char (CHR ''_'')) (ascii ''1A'') \<and>
   \<not> List.member reserved_words (lower (ascii ''1A'')) \<and>
   requires_quoting (ascii ''1A'')"
  by (simp add: quoting_eval)

section \<open>Quoting an identifier\<close>

lemma escape_identifier_doubles:
  "escape_identifier s =
     concat (map (\<lambda>c. if c = of_char (CHR 0x22) then [c, c] else [c]) s)"
  by (induction s) (simp_all add: escape_identifier_def escape_quote_def)

text \<open>
  C7. An identifier that contains the quote character is wrapped in quote characters, and
  every quote character inside it is written twice; \<open>a"b\<close> becomes \<open>"a""b"\<close>.
\<close>

theorem quote_if_needed_doubles_quotes:
  "of_char (CHR 0x22) \<in> set (text_of n) \<Longrightarrow>
   quote_if_needed n =
     of_char (CHR 0x22) #
     concat (map (\<lambda>c. if c = of_char (CHR 0x22) then [c, c] else [c]) (text_of n)) @
     [of_char (CHR 0x22)]"
proof -
  assume q: "of_char (CHR 0x22) \<in> set (text_of n)"
  have "\<not> legal_character (of_char (CHR 0x22))"
    by (simp add: char_class_eval)
  with q have "list_ex (\<lambda>c. \<not> legal_character c) (text_of n)"
    by (auto simp: list_ex_iff)
  then have "requires_quoting (text_of n)"
    by (simp add: requires_quoting_def)
  then show ?thesis
    by (simp add: quote_if_needed_def quote_identifier_def initial_quote_def
        escape_identifier_doubles)
qed

theorem quote_if_needed_doubles_quotes_witness:
  "of_char (CHR 0x22) \<in> set (text_of (Name (ascii [CHR ''a'', CHR 0x22, CHR ''b'']) False)) \<and>
   quote_if_needed (Name (ascii [CHR ''a'', CHR 0x22, CHR ''b'']) False) =
     ascii [CHR 0x22, CHR ''a'', CHR 0x22, CHR 0x22, CHR ''b'', CHR 0x22]"
  using quote_if_needed_doubles_quotes
    [where n = "Name (ascii [CHR ''a'', CHR 0x22, CHR ''b'']) False"]
  by (simp add: ascii_def)

section \<open>The joined name\<close>

lemmas quote_eval =
  quote_if_needed_def quote_identifier_def escape_identifier_def initial_quote_def
  escape_quote_def

text \<open>
  C5, as the source has it. \<open>denormalize_quote_join\<close> drops the absent parts, so no
  separator stands next to a dropped part, quotes every remaining part on its own and
  joins them with a dot. With the quoting of the spec, the parts \<open>public\<close> and \<open>orders\<close>
  are both written bare, and of \<open>public\<close> and \<open>Orders\<close> only the mixed-case part is quoted.
\<close>

theorem denormalize_quote_join_parts:
  "denormalize_quote_join q ids = denormalize_quote_join q (filter (\<lambda>i. i \<noteq> None) ids) \<and>
   denormalize_quote_join q [None, Some b] = q b \<and>
   denormalize_quote_join q [Some a, None] = q a \<and>
   denormalize_quote_join q [Some a, Some b] = q a @ ascii ''.'' @ q b \<and>
   denormalize_quote_join q (Some a # Some b # ids) =
     q a @ ascii ''.'' @ denormalize_quote_join q (Some b # ids) \<and>
   denormalize_quote_join quote_if_needed [None, Some (Name (ascii ''orders'') False)] =
     ascii ''orders'' \<and>
   denormalize_quote_join quote_if_needed
     [Some (Name (ascii ''public'') False), Some (Name (ascii ''orders'') False)] =
     ascii ''public.orders'' \<and>
   denormalize_quote_join quote_if_needed
     [Some (Name (ascii ''public'') False), Some (Name (ascii ''Orders'') False)] =
     ascii (''public.'' @ [CHR 0x22] @ ''Orders'' @ [CHR 0x22])"
proof -
  have o: "quote_if_needed (Name (ascii ''orders'') False) = ascii ''orders''"
    by (simp add: quote_eval quoting_eval)
  have p: "quote_if_needed (Name (ascii ''public'') False) = ascii ''public''"
    by (simp add: quote_eval quoting_eval)
  have m: "quote_if_needed (Name (ascii ''Orders'') False) =
      ascii ([CHR 0x22] @ ''Orders'' @ [CHR 0x22])"
    by (simp add: quote_eval quoting_eval)
  show ?thesis
    by (simp add: denormalize_quote_join_def quote_free_identifiers_def o p m)
      (simp add: ascii_def)
qed

text \<open>
  C5, as the claim has it, fails on its last example: the part \<open>public\<close> needs no quotes and
  is written bare, so the result is not \<open>"public"."Orders"\<close>.
\<close>

theorem denormalize_quote_join_counterexample:
  "denormalize_quote_join quote_if_needed
     [Some (Name (ascii ''public'') False), Some (Name (ascii ''Orders'') False)] \<noteq>
   ascii ([CHR 0x22] @ ''public'' @ [CHR 0x22] @ ''.'' @ [CHR 0x22] @ ''Orders'' @ [CHR 0x22])"
  by (simp add: denormalize_quote_join_def quote_free_identifiers_def quote_eval quoting_eval)

text \<open>
  Whatever the preparer's \<open>quote\<close> does, the second and the third example of the claim
  cannot both hold: they disagree on how the same first part is written.
\<close>

lemma denormalize_quote_join_examples_disagree:
  "\<not> (denormalize_quote_join q [Some p, Some a] = ascii ''public.orders'' \<and>
      denormalize_quote_join q [Some p, Some b] =
        ascii ([CHR 0x22] @ ''public'' @ [CHR 0x22] @ ''.'' @ [CHR 0x22] @ ''Orders'' @ [CHR 0x22]))"
  by (cases "q p") (auto simp: denormalize_quote_join_def quote_free_identifiers_def ascii_def)

section \<open>Name spaces of create\_connect\_args\<close>

lemma split_not_Nil: "split sep s \<noteq> []"
  by (induction s) (auto split: list.splits)

lemma length_split: "length (split sep s) = Suc (count_list s sep)"
  by (induction s) (auto simp: split_not_Nil split: list.splits)

lemma split_no_sep: "sep \<notin> set s \<Longrightarrow> split sep s = [s]"
  by (induction s) auto

lemma split_one_sep:
  "sep \<notin> set a \<Longrightarrow> sep \<notin> set b \<Longrightarrow> split sep (a @ sep # b) = [a, b]"
  by (induction a) (auto simp: split_no_sep)

text \<open>
  C10, as the source has it. An \<open>ArgumentError\<close> is raised exactly when the database
  option is a string with two or more slashes. When the host option is present and the
  URL query sets neither option itself, a database option with exactly one slash comes
  back as the text before the slash, with the text after it as the schema option, and a
  database option with no slash comes back unchanged.
\<close>

theorem create_connect_args_name_spaces:
  "((\<exists>msg. create_connect_args opts query = Inl (ArgumentError msg)) \<longleftrightarrow>
    (\<exists>d. opts ''database'' = Some (StrV d) \<and> 2 \<le> count_list d CHR ''/'')) \<and>
   (opts ''database'' = Some (StrV (a @ CHR ''/'' # b)) \<and>
    CHR ''/'' \<notin> set a \<and> CHR ''/'' \<notin> set b \<and> opts ''host'' = Some (StrV h) \<and>
    query ''database'' = None \<and> query ''schema'' = None \<longrightarrow>
    (\<exists>r. create_connect_args opts query = Inr ([], r) \<and>
         r ''database'' = Some (StrV a) \<and> r ''schema'' = Some (StrV b))) \<and>
   (opts ''database'' = Some (StrV d) \<and> CHR ''/'' \<notin> set d \<and>
    opts ''host'' = Some (StrV h) \<and> query ''database'' = None \<longrightarrow>
    (\<exists>r. create_connect_args opts query = Inr ([], r) \<and> r ''database'' = Some (StrV d)))"
proof (intro conjI impI)
  show "(\<exists>msg. create_connect_args opts query = Inl (ArgumentError msg)) \<longleftrightarrow>
    (\<exists>d. opts ''database'' = Some (StrV d) \<and> 2 \<le> count_list d CHR ''/'')"
    by (auto simp: create_connect_args_def Let_def length_split
        split: option.splits optval.splits if_splits)
next
  assume "opts ''database'' = Some (StrV (a @ CHR ''/'' # b)) \<and>
    CHR ''/'' \<notin> set a \<and> CHR ''/'' \<notin> set b \<and> opts ''host'' = Some (StrV h) \<and>
    query ''database'' = None \<and> query ''schema'' = None"
  then show "\<exists>r. create_connect_args opts query = Inr ([], r) \<and>
    r ''database'' = Some (StrV a) \<and> r ''schema'' = Some (StrV b)"
    by (auto simp: create_connect_args_def Let_def split_one_sep map_add_def
        split: option.splits)
next
  assume "opts ''database'' = Some (StrV d) \<and> CHR ''/'' \<notin> set d \<and>
    opts ''host'' = Some (StrV h) \<and> query ''database'' = None"
  then show "\<exists>r. create_connect_args opts query = Inr ([], r) \<and>
    r ''database'' = Some (StrV d)"
    by (auto simp: create_connect_args_def Let_def split_no_sep map_add_def
        split: option.splits)
qed

theorem create_connect_args_name_spaces_witness:
  "(\<exists>msg. create_connect_args [''database'' \<mapsto> StrV ''a/b/c'', ''host'' \<mapsto> StrV ''acct'']
      Map.empty = Inl (ArgumentError msg)) \<and>
   (\<exists>r. create_connect_args [''database'' \<mapsto> StrV ''db/sch'', ''host'' \<mapsto> StrV ''acct'']
      Map.empty = Inr ([], r) \<and>
      r ''database'' = Some (StrV ''db'') \<and> r ''schema'' = Some (StrV ''sch'')) \<and>
   (\<exists>r. create_connect_args [''database'' \<mapsto> StrV ''db'', ''host'' \<mapsto> StrV ''acct'']
      Map.empty = Inr ([], r) \<and> r ''database'' = Some (StrV ''db''))"
  using
    create_connect_args_name_spaces [where opts = "[''database'' \<mapsto> StrV ''a/b/c'', ''host'' \<mapsto> StrV ''acct'']"
      and query = Map.empty and a = "''a''" and b = "''b''" and d = "''a''" and h = "''acct''"]
    create_connect_args_name_spaces [where opts = "[''database'' \<mapsto> StrV ''db/sch'', ''host'' \<mapsto> StrV ''acct'']"
      and query = Map.empty and a = "''db''" and b = "''sch''" and d = "''db''" and h = "''acct''"]
    create_connect_args_name_spaces [where opts = "[''database'' \<mapsto> StrV ''db'', ''host'' \<mapsto> StrV ''acct'']"
      and query = Map.empty and a = "''db''" and b = "''sch''" and d = "''db''" and h = "''acct''"]
  by simp

text \<open>
  C10, as the claim has it, fails when the URL query carries a schema entry of its own:
  the database option \<open>db/sch\<close> has exactly one slash, and the schema option that comes
  back is the query's, not the text after the slash.
\<close>

theorem create_connect_args_query_counterexample:
  "split CHR ''/'' ''db/sch'' = [''db'', ''sch''] \<and>
   (case create_connect_args [''database'' \<mapsto> StrV ''db/sch'', ''host'' \<mapsto> StrV ''acct'']
           [''schema'' \<mapsto> StrV ''other'']
    of Inl e \<Rightarrow> None | Inr (args, r) \<Rightarrow> r ''schema'') = Some (StrV ''other'')"
  by (simp add: create_connect_args_def Let_def)

end
